theory Spec2Isabelle
  imports Main "HOL-Library.Sublist"
begin

section \<open>JavaScript strings\<close>

text \<open>
  A JavaScript string is a sequence of UTF-16 code units. A code unit is modelled by its
  number, so text outside ASCII (the Chinese literals of the source) is written as it is
  stored. \<open>js\<close> reads an ASCII literal.
\<close>

type_synonym jsstring = "nat list"

definition js :: "string \<Rightarrow> jsstring" where
  "js s = map of_char s"

text \<open>\<^verbatim>\<open>String.prototype.includes\<close>: some suffix of the text starts with the pattern.\<close>

fun includesStr :: "jsstring \<Rightarrow> jsstring \<Rightarrow> bool" where
  "includesStr [] pat = (pat = [])"
| "includesStr (c # cs) pat = (prefix pat (c # cs) \<or> includesStr cs pat)"

text \<open>
  \<^verbatim>\<open>String.prototype.toLowerCase\<close> on the letters A to Z. The other code units are kept:
  no character outside ASCII lower-cases into a digit or into one of q, u, o, t, a, so
  the two \<open>includes\<close> tests of the source that follow it see the same answer.
\<close>

definition toLowerCase :: "jsstring \<Rightarrow> jsstring" where
  "toLowerCase s = map (\<lambda>c. if 65 \<le> c \<and> c \<le> 90 then c + 32 else c) s"

text \<open>
  \<^verbatim>\<open>String.prototype.trim\<close> strips the WhiteSpace and LineTerminator code points of
  ECMAScript from both ends.
\<close>

definition isWhiteSpace :: "nat \<Rightarrow> bool" where
  "isWhiteSpace c \<longleftrightarrow>
     c \<in> set [9, 10, 11, 12, 13, 32, 160, 5760, 8192, 8193, 8194, 8195, 8196, 8197, 8198,
              8199, 8200, 8201, 8202, 8232, 8233, 8239, 8287, 12288, 65279]"

definition trim :: "jsstring \<Rightarrow> jsstring" where
  "trim s = rev (dropWhile isWhiteSpace (rev (dropWhile isWhiteSpace s)))"

text \<open>
  \<^verbatim>\<open>String.prototype.split\<close> with a string separator: the text is cut at every occurrence
  of the separator, scanning from the left; an empty separator cuts between all code
  units. \<open>acc\<close> holds the piece being read, reversed.
\<close>

function splitFrom :: "jsstring \<Rightarrow> jsstring \<Rightarrow> jsstring \<Rightarrow> jsstring list" where
  "splitFrom sep acc [] = [rev acc]"
| "splitFrom sep acc (c # cs) =
     (if sep \<noteq> [] \<and> prefix sep (c # cs)
      then rev acc # splitFrom sep [] (drop (length sep) (c # cs))
      else splitFrom sep (c # acc) cs)"
  by pat_completeness auto
termination
  by (relation "measure (\<lambda>(sep, acc, s). length s)") (auto simp: neq_Nil_conv)

definition split :: "jsstring \<Rightarrow> jsstring \<Rightarrow> jsstring list" where
  "split s sep = (if sep = [] then map (\<lambda>c. [c]) s else splitFrom sep [] s)"

text \<open>Reading an array element: \<^verbatim>\<open>xs[i]\<close> is \<^verbatim>\<open>undefined\<close> outside the array.\<close>

definition at :: "'a list \<Rightarrow> int \<Rightarrow> 'a option" where
  "at xs i = (if 0 \<le> i \<and> i < int (length xs) then Some (xs ! nat i) else None)"

section \<open>Thrown values and the retry executor\<close>

text \<open>
  What the source observes of a value it catches. Each of the three observations runs
  code of the value and may throw:
  \<^item> \<^verbatim>\<open>JSON.stringify\<close> gives a text, or gives \<^verbatim>\<open>undefined\<close> (\<open>NoText\<close>, as for a thrown
    \<^verbatim>\<open>undefined\<close>), or throws (\<open>Throws\<close>: a TypeError for a cyclic object, and whatever a
    \<^verbatim>\<open>toJSON\<close> method of the value throws);
  \<^item> reading the field \<^verbatim>\<open>status\<close>, and reading the field \<^verbatim>\<open>code\<close>, gives the content of the
    field (\<open>Holds (Some n)\<close> when that is the number \<open>n\<close>, \<open>Holds None\<close> for anything else
    and for a field that is not there), or throws what the getter of the field throws
    (\<open>Raises\<close>).
  The observations are taken to be functions of the value: observing a value again gives
  the same result.
\<close>

datatype thrown = Thrown (json: stringified) (status: field) (code: field)
  and stringified = Text jsstring | NoText | Throws thrown
  and field = Holds "int option" | Raises thrown

text \<open>
  An error object of the platform (TypeError, SyntaxError): its own properties are not
  enumerable, so it serialises to \<^verbatim>\<open>{}\<close>, and it has neither field.
\<close>

definition plainError :: thrown where
  "plainError = Thrown (Text (js ''{}'')) (Holds None) (Holds None)"

text \<open>
  The classification in the \<^verbatim>\<open>catch\<close> block of \<^verbatim>\<open>withRetry\<close>, in the order of the source: the
  value is serialised and \<^verbatim>\<open>toLowerCase\<close> is called on the result (a TypeError when there is
  no text; what \<^verbatim>\<open>JSON.stringify\<close> throws is thrown on); the two \<^verbatim>\<open>includes\<close> tests; then, only
  when both fail, the field \<^verbatim>\<open>status\<close>; then, only when that is not 429, the field \<^verbatim>\<open>code\<close>.
  The result is the verdict (\<open>Inr\<close>) or what the classification throws (\<open>Inl\<close>).
\<close>

definition isRateLimit :: "thrown \<Rightarrow> thrown + bool" where
  "isRateLimit error =
     (case json error of
        Throws x \<Rightarrow> Inl x
      | NoText \<Rightarrow> Inl plainError
      | Text str \<Rightarrow>
          (let errorStr = toLowerCase str
           in if includesStr errorStr (js ''429'') \<or> includesStr errorStr (js ''quota'')
              then Inr True
              else (case status error of
                      Raises x \<Rightarrow> Inl x
                    | Holds s \<Rightarrow>
                        if s = Some 429 then Inr True
                        else (case code error of
                                Raises x \<Rightarrow> Inl x
                              | Holds c \<Rightarrow> Inr (c = Some 429)))))"

text \<open>
  The classification as the specification words it, to compare with the one of the
  source: a value is classified as rate limit when its serialised form contains
  \<^verbatim>\<open>429\<close> or \<^verbatim>\<open>quota\<close> (in any letter case, as the source lower-cases the form first), or its
  field \<^verbatim>\<open>status\<close> or its field \<^verbatim>\<open>code\<close> equals 429. \<open>readable\<close> says that the three
  observations of the value succeed.
\<close>

definition mentionsRateLimit :: "jsstring \<Rightarrow> bool" where
  "mentionsRateLimit str \<longleftrightarrow>
     includesStr (toLowerCase str) (js ''429'') \<or> includesStr (toLowerCase str) (js ''quota'')"

definition rateLimitClassified :: "thrown \<Rightarrow> bool" where
  "rateLimitClassified e \<longleftrightarrow>
     (case json e of Text str \<Rightarrow> mentionsRateLimit str | NoText \<Rightarrow> False | Throws x \<Rightarrow> False) \<or>
     status e = Holds (Some 429) \<or> code e = Holds (Some 429)"

definition readable :: "thrown \<Rightarrow> bool" where
  "readable e \<longleftrightarrow>
     (case json e of Text str \<Rightarrow> True | NoText \<Rightarrow> False | Throws x \<Rightarrow> False) \<and>
     (case status e of Holds s \<Rightarrow> True | Raises x \<Rightarrow> False) \<and>
     (case code e of Holds c \<Rightarrow> True | Raises x \<Rightarrow> False)"

text \<open>
  The trace of one run of the executor: every call of the wrapped operation and every
  \<^verbatim>\<open>setTimeout\<close> wait, in order.
\<close>

datatype event = Invoked | Waited int

text \<open>
  The wrapped operation is a function on the state of the world \<open>'w\<close>: it returns the
  value (\<open>Inr\<close>) or what it throws (\<open>Inl\<close>), and the world after the call.
\<close>

type_synonym ('a, 'w) operation = "'w \<Rightarrow> (thrown + 'a) \<times> 'w"

text \<open>
  \<^verbatim>\<open>withRetry\<close>. What the classification throws leaves the \<^verbatim>\<open>catch\<close> block, and so the
  executor, in place of the caught value.

  The retry count and the delay are JavaScript numbers, that is, doubles. The model reads
  them as integers. It computes what the source computes wherever the arithmetic of the
  source is exact: \<^verbatim>\<open>retries - 1\<close> is exact for an integer of magnitude up to \<open>2 ^ 53\<close>, and
  \<^verbatim>\<open>delay * 2\<close> is exact for such an integer until the product reaches \<open>2 ^ 1024\<close>, where the
  source gets \<^verbatim>\<open>Infinity\<close>. \<open>exactNumbers\<close> states this range; the two callers pass 3 and 3000.
  Only a run that retries does arithmetic.
\<close>

definition exactNumbers :: "int \<Rightarrow> int \<Rightarrow> bool" where
  "exactNumbers retries delay \<longleftrightarrow>
     \<bar>retries\<bar> \<le> 2 ^ 53 \<and> \<bar>delay\<bar> \<le> 2 ^ 53 \<and> \<bar>delay\<bar> * 2 ^ nat retries < 2 ^ 1024"

function withRetry ::
  "('a, 'w) operation \<Rightarrow> int \<Rightarrow> int \<Rightarrow> 'w \<Rightarrow> (thrown + 'a) \<times> 'w \<times> event list" where
  "withRetry fn retries delay w =
     (case fn w of
        (Inr v, w') \<Rightarrow> (Inr v, w', [Invoked])
      | (Inl error, w') \<Rightarrow>
          (case isRateLimit error of
             Inl x \<Rightarrow> (Inl x, w', [Invoked])
           | Inr rateLimit \<Rightarrow>
               if retries > 0 \<and> rateLimit
               then (case withRetry fn (retries - 1) (delay * 2) w' of
                       (r, w'', tr) \<Rightarrow> (r, w'', Invoked # Waited delay # tr))
               else (Inl error, w', [Invoked])))"
  by pat_completeness auto
termination
  by (relation "measure (\<lambda>(fn, retries, delay, w). nat retries)") auto

declare withRetry.simps [simp del]

text \<open>The world before the \<open>k\<close>-th call of the operation (counted from 0) when every
  earlier call is followed by another, and the outcome of that call.\<close>

fun worldBefore :: "('a, 'w) operation \<Rightarrow> 'w \<Rightarrow> nat \<Rightarrow> 'w" where
  "worldBefore fn w 0 = w"
| "worldBefore fn w (Suc k) = worldBefore fn (snd (fn w)) k"

definition attempt :: "('a, 'w) operation \<Rightarrow> 'w \<Rightarrow> nat \<Rightarrow> thrown + 'a" where
  "attempt fn w k = fst (fn (worldBefore fn w k))"

text \<open>A call fails with a value that can be read and is classified as rate limit.\<close>

definition rateLimited :: "thrown + 'a \<Rightarrow> bool" where
  "rateLimited r = (case r of Inl e \<Rightarrow> readable e \<and> rateLimitClassified e | Inr v \<Rightarrow> False)"

definition invocations :: "event list \<Rightarrow> nat" where
  "invocations tr = length (filter (\<lambda>e. e = Invoked) tr)"

fun waits :: "event list \<Rightarrow> int list" where
  "waits [] = []"
| "waits (Invoked # tr) = waits tr"
| "waits (Waited d # tr) = d # waits tr"

text \<open>The trace of \<open>n\<close> failed calls, each followed by its wait, from the delay \<open>d\<close>.\<close>

fun backoff :: "nat \<Rightarrow> int \<Rightarrow> event list" where
  "backoff 0 d = []"
| "backoff (Suc n) d = Invoked # Waited d # backoff n (d * 2)"

section \<open>The card renderer's extraction step\<close>

definition fenceHtml :: jsstring where
  "fenceHtml = js ''```html''"

definition fence :: jsstring where
  "fence = js ''```''"

text \<open>
  The end of the operation wrapped by \<^verbatim>\<open>generateCardHTML\<close>, from \<^verbatim>\<open>let html = response.text\<close>
  to \<^verbatim>\<open>return html.trim()\<close>. Reading an element that \<^verbatim>\<open>split\<close> did not produce gives
  \<^verbatim>\<open>undefined\<close>, and the method call on it throws a TypeError.
\<close>

definition extractHtml :: "jsstring \<Rightarrow> thrown + jsstring" where
  "extractHtml text =
     (if includesStr text fenceHtml then
        (case at (split text fenceHtml) 1 of
           None \<Rightarrow> Inl plainError
         | Some part \<Rightarrow>
             (case at (split part fence) 0 of
                None \<Rightarrow> Inl plainError
              | Some html \<Rightarrow> Inr (trim html)))
      else if includesStr text fence then
        (case at (split text fence) 1 of
           None \<Rightarrow> Inl plainError
         | Some part \<Rightarrow>
             (case at (split part fence) 0 of
                None \<Rightarrow> Inl plainError
              | Some html \<Rightarrow> Inr (trim html)))
      else Inr (trim text))"

text \<open>Operations for the examples: the world is the number of calls made so far.\<close>

definition apiError429 :: thrown where
  "apiError429 =
     Thrown (Text (js ''{'' @ [34] @ js ''status'' @ [34] @ js '':429}''))
       (Holds (Some 429)) (Holds None)"

definition alwaysQuota :: "(nat, nat) operation" where
  "alwaysQuota n = (Inl apiError429, Suc n)"

definition alwaysBroken :: "(nat, nat) operation" where
  "alwaysBroken n = (Inl plainError, Suc n)"

text \<open>
  Values without a serialised text: a cyclic object that carries the status 429
  (\<^verbatim>\<open>JSON.stringify\<close> throws a TypeError), the value \<^verbatim>\<open>undefined\<close> (\<^verbatim>\<open>JSON.stringify\<close> gives
  \<^verbatim>\<open>undefined\<close>), and an object with the status 500 whose \<^verbatim>\<open>toJSON\<close> method throws \<^verbatim>\<open>undefined\<close>.
\<close>

definition cyclic429 :: thrown where
  "cyclic429 = Thrown (Throws plainError) (Holds (Some 429)) (Holds None)"

definition undefinedValue :: thrown where
  "undefinedValue = Thrown NoText (Holds None) (Holds None)"


definition alwaysCyclic :: "(nat, nat) operation" where
  "alwaysCyclic n = (Inl cyclic429, Suc n)"

definition alwaysUndefined :: "(nat, nat) operation" where
  "alwaysUndefined n = (Inl undefinedValue, Suc n)"

section \<open>The data model\<close>

record CardOutline =
  title :: jsstring
  points :: "jsstring list"

datatype Style = Academic | Modern | Tech | Handwritten | Business

record FontPairing =
  heading :: jsstring
  body :: jsstring

record DesignBlueprint =
  style :: Style
  themeColor :: jsstring
  secondaryColor :: jsstring
  fontPairing :: FontPairing
  cardOutlines :: "CardOutline list"
  description :: jsstring

datatype WorkflowState =
  IDLE | ANALYZING | BLUEPRINT_READY | GENERATING_CARD | CARD_READY | ERROR

section \<open>The generation service\<close>

text \<open>
  The two requests the service sends to the external generation capability, by what their
  prompts are built from: the document text and the style preference; the card outline,
  the style and colours of the blueprint, the position \<^verbatim>\<open>cardIndex + 1\<close>, the number of
  outlines and the cover flag.
\<close>

datatype request =
    AnalyzeRequest jsstring jsstring
  | RenderRequest CardOutline Style jsstring jsstring int nat bool

text \<open>
  The capability is outside the repository: it answers a request with the text of the
  response (\<open>None\<close> when the response carries no text) or throws, and moves its own state
  \<open>'w\<close>. The world of the service is that state and the list of the requests sent so far.
\<close>

type_synonym 'w capability = "request \<Rightarrow> 'w \<Rightarrow> (thrown + jsstring option) \<times> 'w"

record 'w world =
  sent :: "request list"
  env :: 'w

definition generateContent ::
  "'w capability \<Rightarrow> request \<Rightarrow> 'w world \<Rightarrow> (thrown + jsstring option) \<times> 'w world" where
  "generateContent ai req wd =
     (case ai req (env wd) of (r, e) \<Rightarrow> (r, \<lparr>sent = sent wd @ [req], env = e\<rparr>))"

text \<open>
  The operation that \<^verbatim>\<open>analyzeDocument\<close> wraps. \<open>parse\<close> stands for \<^verbatim>\<open>JSON.parse\<close> read as a
  blueprint: \<open>None\<close> when it throws a SyntaxError, as it also does for a response
  without text. The source casts the parsed value to the blueprint type without a check;
  the model takes a parsed value to have that shape, which the response schema of the
  request asks of the capability.
\<close>

definition analyzeOnce ::
  "'w capability \<Rightarrow> (jsstring \<Rightarrow> DesignBlueprint option) \<Rightarrow> jsstring \<Rightarrow> jsstring \<Rightarrow>
   (DesignBlueprint, 'w world) operation" where
  "analyzeOnce ai parse txt preferredStyle wd =
     (case generateContent ai (AnalyzeRequest txt preferredStyle) wd of
        (Inl e, wd') \<Rightarrow> (Inl e, wd')
      | (Inr response, wd') \<Rightarrow>
          (case response of
             None \<Rightarrow> (Inl plainError, wd')
           | Some t \<Rightarrow>
               (case parse t of
                  None \<Rightarrow> (Inl plainError, wd')
                | Some result \<Rightarrow> (Inr result, wd'))))"

definition analyzeDocument ::
  "'w capability \<Rightarrow> (jsstring \<Rightarrow> DesignBlueprint option) \<Rightarrow> jsstring \<Rightarrow> jsstring \<Rightarrow>
   'w world \<Rightarrow> (thrown + DesignBlueprint) \<times> 'w world \<times> event list" where
  "analyzeDocument ai parse txt preferredStyle =
     withRetry (analyzeOnce ai parse txt preferredStyle) 3 3000"

text \<open>
  The operation that \<^verbatim>\<open>generateCardHTML\<close> wraps. The outline is read first; the prompt reads
  \<^verbatim>\<open>card.title\<close>, which throws a TypeError when the lookup gave \<^verbatim>\<open>undefined\<close>, before anything
  is sent. A response without text throws a TypeError at \<^verbatim>\<open>html.includes\<close>.
\<close>

definition renderPrompt :: "DesignBlueprint \<Rightarrow> int \<Rightarrow> CardOutline \<Rightarrow> request" where
  "renderPrompt blueprint cardIndex outline =
     (let total = length (cardOutlines blueprint);
          isCover = (cardIndex = 0)
      in RenderRequest outline (style blueprint) (themeColor blueprint)
           (secondaryColor blueprint) (cardIndex + 1) total isCover)"

definition renderOnce ::
  "'w capability \<Rightarrow> DesignBlueprint \<Rightarrow> int \<Rightarrow> (jsstring, 'w world) operation" where
  "renderOnce ai blueprint cardIndex wd =
     (case at (cardOutlines blueprint) cardIndex of
        None \<Rightarrow> (Inl plainError, wd)
      | Some outline \<Rightarrow>
          (case generateContent ai (renderPrompt blueprint cardIndex outline) wd of
             (Inl e, wd') \<Rightarrow> (Inl e, wd')
           | (Inr response, wd') \<Rightarrow>
               (case response of
                  None \<Rightarrow> (Inl plainError, wd')
                | Some html \<Rightarrow> (extractHtml html, wd'))))"

definition generateCardHTML ::
  "'w capability \<Rightarrow> DesignBlueprint \<Rightarrow> int \<Rightarrow> 'w world \<Rightarrow>
   (thrown + jsstring) \<times> 'w world \<times> event list" where
  "generateCardHTML ai blueprint cardIndex = withRetry (renderOnce ai blueprint cardIndex) 3 3000"

section \<open>The workflow controller\<close>

record GeneratedCard =
  index :: int
  html :: jsstring
  title :: jsstring

text \<open>The two texts of \<^verbatim>\<open>formatErrorMessage\<close>: the quota text and the general one.\<close>

datatype message = QuotaExceeded | GenerationFailed

text \<open>
  \<^verbatim>\<open>formatErrorMessage\<close> serialises the caught value as the executor does: it throws
  (\<open>Inl\<close>) a TypeError where \<^verbatim>\<open>JSON.stringify\<close> gives no text, and what \<^verbatim>\<open>JSON.stringify\<close> throws.
\<close>

definition formatErrorMessage :: "thrown \<Rightarrow> thrown + message" where
  "formatErrorMessage err =
     (case json err of
        Throws x \<Rightarrow> Inl x
      | NoText \<Rightarrow> Inl plainError
      | Text str \<Rightarrow>
          (let errStr = toLowerCase str
           in if includesStr errStr (js ''429'') \<or> includesStr errStr (js ''quota'')
              then Inr QuotaExceeded else Inr GenerationFailed))"

text \<open>The state of the component \<^verbatim>\<open>App\<close>, one field for each \<^verbatim>\<open>useState\<close>.\<close>

record AppState =
  inputText :: jsstring
  selectedStyle :: jsstring
  workflow :: WorkflowState
  blueprint :: "DesignBlueprint option"
  currentCard :: "GeneratedCard option"
  error :: "message option"
  isDownloading :: bool

text \<open>
  A handler runs from a state and a world and leaves the state it has set, the world, and
  the value its promise is rejected with when something is thrown past its \<^verbatim>\<open>catch\<close>: what
  \<^verbatim>\<open>formatErrorMessage\<close> throws inside the \<^verbatim>\<open>catch\<close> block leaves the handler before the
  message and the workflow are set.
\<close>

type_synonym 'w handled = "AppState \<times> 'w world \<times> thrown option"

definition handleAnalyze ::
  "'w capability \<Rightarrow> (jsstring \<Rightarrow> DesignBlueprint option) \<Rightarrow> AppState \<Rightarrow> 'w world \<Rightarrow>
   'w handled" where
  "handleAnalyze ai parse st wd =
     (if trim (inputText st) = [] then (st, wd, None)
      else
        (let st1 = st\<lparr>workflow := ANALYZING, error := None\<rparr>
         in case analyzeDocument ai parse (inputText st) (selectedStyle st) wd of
              (Inr result, wd', tr) \<Rightarrow>
                (st1\<lparr>blueprint := Some result, workflow := BLUEPRINT_READY\<rparr>, wd', None)
            | (Inl err, wd', tr) \<Rightarrow>
                (case formatErrorMessage err of
                   Inl x \<Rightarrow> (st1, wd', Some x)
                 | Inr m \<Rightarrow> (st1\<lparr>error := Some m, workflow := IDLE\<rparr>, wd', None))))"

text \<open>
  In \<^verbatim>\<open>handleGenerateCard\<close> the title of the new card is read from the outline inside the
  \<^verbatim>\<open>try\<close> block, so a failed lookup there is caught like a failed rendering.
\<close>

definition handleGenerateCard ::
  "'w capability \<Rightarrow> AppState \<Rightarrow> int \<Rightarrow> 'w world \<Rightarrow> 'w handled" where
  "handleGenerateCard ai st idx wd =
     (case blueprint st of
        None \<Rightarrow> (st, wd, None)
      | Some bp \<Rightarrow>
          (let st1 = st\<lparr>workflow := GENERATING_CARD, error := None\<rparr>
           in case generateCardHTML ai bp idx wd of
                (r, wd', tr) \<Rightarrow>
                  (case (case r of
                           Inl err \<Rightarrow> Inl err
                         | Inr h \<Rightarrow>
                             (case at (cardOutlines bp) idx of
                                None \<Rightarrow> Inl plainError
                              | Some outline \<Rightarrow>
                                  Inr \<lparr>index = idx, html = h,
                                       title = CardOutline.title outline\<rparr>)) of
                     Inr newCard \<Rightarrow>
                       (st1\<lparr>currentCard := Some newCard, workflow := CARD_READY\<rparr>, wd', None)
                   | Inl err \<Rightarrow>
                       (case formatErrorMessage err of
                          Inl x \<Rightarrow> (st1, wd', Some x)
                        | Inr m \<Rightarrow>
                            (st1\<lparr>error := Some m, workflow := BLUEPRINT_READY\<rparr>, wd', None)))))"

definition handleNext :: "'w capability \<Rightarrow> AppState \<Rightarrow> 'w world \<Rightarrow> 'w handled" where
  "handleNext ai st wd =
     (case blueprint st of
        None \<Rightarrow> (st, wd, None)
      | Some bp \<Rightarrow>
          (case currentCard st of
             None \<Rightarrow> (st, wd, None)
           | Some cur \<Rightarrow>
               if index cur < int (length (cardOutlines bp)) - 1
               then handleGenerateCard ai st (index cur + 1) wd
               else (st, wd, None)))"

definition handleReset :: "AppState \<Rightarrow> AppState" where
  "handleReset st =
     st\<lparr>workflow := IDLE, blueprint := None, currentCard := None, inputText := [],
        selectedStyle := js ''Auto'', error := None\<rparr>"

text \<open>
  The buttons of the rendered page that are bound to these handlers: the analysis button
  of the form, one button for each outline of the blueprint, the start button of the
  blueprint panel (card 0), the next button of the card panel, and the reset button.
  \<open>enabled\<close> follows the JSX: a button counts when it is rendered and not disabled.
\<close>

datatype control = AnalyzeButton | CardButton nat | StartButton | NextButton | ResetButton

definition formShown :: "AppState \<Rightarrow> bool" where
  "formShown st \<longleftrightarrow> workflow st = IDLE \<or> workflow st = ANALYZING"

definition panelShown :: "AppState \<Rightarrow> bool" where
  "panelShown st \<longleftrightarrow> workflow st \<noteq> IDLE \<and> workflow st \<noteq> GENERATING_CARD"

fun enabled :: "AppState \<Rightarrow> control \<Rightarrow> bool" where
  "enabled st AnalyzeButton \<longleftrightarrow>
     formShown st \<and> \<not> (workflow st = ANALYZING \<or> trim (inputText st) = [])"
| "enabled st (CardButton idx) \<longleftrightarrow>
     \<not> formShown st \<and>
     (case blueprint st of
        None \<Rightarrow> False
      | Some bp \<Rightarrow> idx < length (cardOutlines bp) \<and> \<not> workflow st = GENERATING_CARD)"
| "enabled st StartButton \<longleftrightarrow>
     panelShown st \<and> currentCard st = None \<and> blueprint st \<noteq> None"
| "enabled st NextButton \<longleftrightarrow>
     panelShown st \<and>
     (case currentCard st of
        None \<Rightarrow> False
      | Some cur \<Rightarrow>
          \<not> index cur =
              int (case blueprint st of None \<Rightarrow> 0 | Some bp \<Rightarrow> length (cardOutlines bp)) - 1)"
| "enabled st ResetButton \<longleftrightarrow> workflow st \<noteq> IDLE"

fun click ::
  "'w capability \<Rightarrow> (jsstring \<Rightarrow> DesignBlueprint option) \<Rightarrow> AppState \<Rightarrow> control \<Rightarrow>
   'w world \<Rightarrow> 'w handled" where
  "click ai parse st AnalyzeButton wd = handleAnalyze ai parse st wd"
| "click ai parse st (CardButton idx) wd = handleGenerateCard ai st (int idx) wd"
| "click ai parse st StartButton wd = handleGenerateCard ai st 0 wd"
| "click ai parse st NextButton wd = handleNext ai st wd"
| "click ai parse st ResetButton wd = (handleReset st, wd, None)"

section \<open>The export pipeline\<close>

text \<open>What \<^verbatim>\<open>downloadAsImage\<close> reads of a value it catches.\<close>

record exportError =
  name :: jsstring
  message :: "jsstring option"

text \<open>
  A node of the document in the frame, as the filter sees it: the tag name, and the
  \<^verbatim>\<open>sheet\<close> property with what reading \<^verbatim>\<open>cssRules\<close> of the sheet does, the rules or a throw
  (\<open>None\<close> for a node without a sheet).
\<close>

record node =
  tagName :: jsstring
  sheet :: "(exportError + jsstring list) option"

text \<open>The function \<^verbatim>\<open>filter\<close> that \<^verbatim>\<open>downloadAsImage\<close> passes to the rasteriser.\<close>

definition filterNode :: "node \<Rightarrow> bool" where
  "filterNode n =
     (if tagName n = js ''LINK''
      then (case sheet n of
              None \<Rightarrow> True
            | Some rules \<Rightarrow> (case rules of Inl e \<Rightarrow> False | Inr rs \<Rightarrow> True))
      else True)"

text \<open>
  The file name of the download: the template literal of \<^verbatim>\<open>link.download\<close>. The regular
  expression \<^verbatim>\<open>/[\\/:*?"<>|]/g\<close> matches one code unit at a time, and every match is
  replaced by an underscore. The literal in front of the title is three Chinese
  characters and a hyphen.
\<close>

definition unsafeChars :: "nat list" where
  "unsafeChars = [92, 47, 58, 42, 63, 34, 60, 62, 124]"

fun replaceUnsafe :: "jsstring \<Rightarrow> jsstring" where
  "replaceUnsafe [] = []"
| "replaceUnsafe (c # cs) = (if c \<in> set unsafeChars then 95 else c) # replaceUnsafe cs"

definition fileNamePrefix :: jsstring where
  "fileNamePrefix = [30693, 35782, 21345, 45]"

definition fileName :: "jsstring \<Rightarrow> jsstring" where
  "fileName cardTitle = fileNamePrefix @ replaceUnsafe cardTitle @ js ''.png''"

text \<open>
  What \<^verbatim>\<open>downloadAsImage\<close> finds outside the component: whether the frame is mounted,
  whether its document can be read, the container (\<^verbatim>\<open>.card-container\<close> or the body), and
  the rasteriser \<^verbatim>\<open>htmlToImage.toPng\<close>, which gets the container and the filter and gives
  a data URL or throws. The wait for the fonts has no part in the outcome: whatever it
  throws is caught and logged.
\<close>

record exportEnv =
  iframeMounted :: bool
  iframeDoc :: bool
  cardContainer :: "node option"
  toPng :: "node \<Rightarrow> (node \<Rightarrow> bool) \<Rightarrow> exportError + jsstring"

datatype alert = SecurityAlert | FailureAlert

datatype effect = Download jsstring jsstring | Alert alert

definition noDocumentError :: exportError where
  "noDocumentError =
     \<lparr>name = js ''Error'',
      message = Some [26080, 27861, 35835, 21462, 32, 105, 102, 114, 97, 109, 101, 32,
                      20869, 23481]\<rparr>"

definition noContainerError :: exportError where
  "noContainerError =
     \<lparr>name = js ''Error'',
      message = Some [25214, 19981, 21040, 21345, 29255, 23481, 22120, 33410, 28857]\<rparr>"

definition exportAlert :: "exportError \<Rightarrow> alert" where
  "exportAlert err =
     (if name err = js ''SecurityError'' \<or>
         (case message err of None \<Rightarrow> False | Some m \<Rightarrow> includesStr m (js ''SecurityError''))
      then SecurityAlert else FailureAlert)"

text \<open>
  The \<^verbatim>\<open>try\<close> block of \<^verbatim>\<open>downloadAsImage\<close> up to the data URL, and the whole function: the
  early return, the download on success, the alert chosen in the \<^verbatim>\<open>catch\<close> block, and
  \<^verbatim>\<open>isDownloading\<close> reset in the \<^verbatim>\<open>finally\<close> block.
\<close>

definition rasterise :: "exportEnv \<Rightarrow> exportError + jsstring" where
  "rasterise ex =
     (if \<not> iframeDoc ex then Inl noDocumentError
      else (case cardContainer ex of
              None \<Rightarrow> Inl noContainerError
            | Some container \<Rightarrow> toPng ex container filterNode))"

definition downloadAsImage :: "exportEnv \<Rightarrow> AppState \<Rightarrow> AppState \<times> effect list" where
  "downloadAsImage ex st =
     (if \<not> iframeMounted ex then (st, [])
      else (case currentCard st of
              None \<Rightarrow> (st, [])
            | Some cur \<Rightarrow>
                (st\<lparr>isDownloading := False\<rparr>,
                 (case rasterise ex of
                    Inr dataUrl \<Rightarrow> [Download (fileName (GeneratedCard.title cur)) dataUrl]
                  | Inl err \<Rightarrow> [Alert (exportAlert err)]))))"

section \<open>Examples\<close>

text \<open>A blueprint of two outlines, three capabilities whose state counts the requests, and
  states of the page.\<close>

definition demoBlueprint :: DesignBlueprint where
  "demoBlueprint =
     \<lparr>style = Modern, themeColor = js ''#112233'', secondaryColor = js ''#445566'',
      fontPairing = \<lparr>heading = js ''Inter'', body = js ''Inter''\<rparr>,
      cardOutlines =
        [\<lparr>CardOutline.title = js ''Cover'', points = [js ''summary'']\<rparr>,
         \<lparr>CardOutline.title = js ''Part 1'', points = [js ''a'', js ''b'']\<rparr>],
      description = js ''demo''\<rparr>"


definition brokenService :: "nat capability" where
  "brokenService req n = (Inl plainError, Suc n)"


definition htmlService :: "nat capability" where
  "htmlService req n = (Inr (Some (js ''```html <p>hi</p> ```'')), Suc n)"

definition demoParse :: "jsstring \<Rightarrow> DesignBlueprint option" where
  "demoParse t = (if t = js ''ok'' then Some demoBlueprint else None)"

definition idleState :: AppState where
  "idleState =
     \<lparr>inputText = js ''Hello world'', selectedStyle = js ''Auto'', workflow = IDLE,
      blueprint = None, currentCard = None, error = None, isDownloading = False\<rparr>"

definition readyState :: AppState where
  "readyState = idleState\<lparr>workflow := BLUEPRINT_READY, blueprint := Some demoBlueprint\<rparr>"

definition newWorld :: "nat world" where
  "newWorld = \<lparr>sent = [], env = 0\<rparr>"

definition coverCard :: GeneratedCard where
  "coverCard = \<lparr>index = 0, html = js ''<p>hi</p>'', title = js ''Cover''\<rparr>"

definition lastCard :: GeneratedCard where
  "lastCard = \<lparr>index = 1, html = js ''<p>hi</p>'', title = js ''Part 1''\<rparr>"

definition shownState :: AppState where
  "shownState = readyState\<lparr>workflow := CARD_READY, currentCard := Some coverCard\<rparr>"

definition blankState :: AppState where
  "blankState = idleState\<lparr>inputText := [32, 9, 10, 160]\<rparr>"

definition lastState :: AppState where
  "lastState = readyState\<lparr>workflow := CARD_READY, currentCard := Some lastCard\<rparr>"

definition analysingState :: AppState where
  "analysingState = idleState\<lparr>workflow := ANALYZING\<rparr>"

definition generatingState :: AppState where
  "generatingState = readyState\<lparr>workflow := GENERATING_CARD\<rparr>"

definition staleState :: AppState where
  "staleState = idleState\<lparr>workflow := ANALYZING, currentCard := Some coverCard\<rparr>"

text \<open>Nodes of a card document, a rasteriser that succeeds, and a card whose title holds
  unsafe characters.\<close>

definition crossOriginLink :: node where
  "crossOriginLink =
     \<lparr>tagName = js ''LINK'',
      sheet = Some (Inl \<lparr>name = js ''SecurityError'', message = None\<rparr>)\<rparr>"

definition sameOriginLink :: node where
  "sameOriginLink = \<lparr>tagName = js ''LINK'', sheet = Some (Inr [js ''body { margin: 0 }''])\<rparr>"

definition pendingLink :: node where
  "pendingLink = \<lparr>tagName = js ''LINK'', sheet = None\<rparr>"

definition divNode :: node where
  "divNode = \<lparr>tagName = js ''DIV'', sheet = None\<rparr>"

definition demoToPng :: "node \<Rightarrow> (node \<Rightarrow> bool) \<Rightarrow> exportError + jsstring" where
  "demoToPng n keep = Inr (js ''data:image/png;base64,AAAA'')"

definition demoExport :: exportEnv where
  "demoExport =
     \<lparr>iframeMounted = True, iframeDoc = True, cardContainer = Some divNode,
      toPng = demoToPng\<rparr>"

definition questionCard :: GeneratedCard where
  "questionCard = \<lparr>index = 0, html = js ''<p>hi</p>'', title = js ''Q&A: a/b?''\<rparr>"

definition questionState :: AppState where
  "questionState = readyState\<lparr>workflow := CARD_READY, currentCard := Some questionCard\<rparr>"

section \<open>Properties of the retry executor\<close>

lemma attempt_Suc: "attempt fn w (Suc k) = attempt fn (snd (fn w)) k"
  by (simp add: attempt_def)

text \<open>On a value that can be read, the source reaches the verdict of the specification.\<close>

lemma isRateLimit_readable: "readable e \<Longrightarrow> isRateLimit e = Inr (rateLimitClassified e)"
  by (cases e)
    (auto simp: readable_def isRateLimit_def rateLimitClassified_def mentionsRateLimit_def Let_def
      split: stringified.splits field.splits)

lemma withRetry_backoff:
  "\<forall>k\<le>n. rateLimited (attempt fn w k) \<Longrightarrow> retries = int n \<Longrightarrow>
   withRetry fn retries delay w =
     (attempt fn w n, worldBefore fn w (Suc n), backoff n delay @ [Invoked])"
proof (induction n arbitrary: retries delay w)
  case 0
  then have "rateLimited (fst (fn w))"
    by (simp add: attempt_def)
  then obtain e w' where fw: "fn w = (Inl e, w')" and rl: "isRateLimit e = Inr True"
    by (cases "fn w") (auto simp: rateLimited_def isRateLimit_readable split: sum.splits)
  with 0 show ?case
    by (subst withRetry.simps) (simp add: attempt_def)
next
  case (Suc n)
  from Suc.prems have "rateLimited (attempt fn w 0)"
    by blast
  then obtain e w' where fw: "fn w = (Inl e, w')" and rl: "isRateLimit e = Inr True"
    by (cases "fn w")
      (auto simp: rateLimited_def attempt_def isRateLimit_readable split: sum.splits)
  have later: "\<forall>k\<le>n. rateLimited (attempt fn w' k)"
  proof (intro allI impI)
    fix k assume "k \<le> n"
    with Suc.prems have "rateLimited (attempt fn w (Suc k))"
      by simp
    with fw show "rateLimited (attempt fn w' k)"
      by (simp add: attempt_Suc)
  qed
  have "withRetry fn (retries - 1) (delay * 2) w' =
          (attempt fn w' n, worldBefore fn w' (Suc n), backoff n (delay * 2) @ [Invoked])"
    using Suc.IH [OF later] Suc.prems(2) by simp
  with fw rl Suc.prems(2) show ?case
    by (subst withRetry.simps) (simp add: attempt_Suc)
qed

lemma invocations_backoff: "invocations (backoff n d @ [Invoked]) = Suc n"
  by (induction n arbitrary: d) (simp_all add: invocations_def)

lemma waits_backoff: "waits (backoff n d @ [Invoked]) = map (\<lambda>k. d * 2 ^ k) [0..<n]"
proof (induction n arbitrary: d)
  case 0
  show ?case by simp
next
  case (Suc n)
  have "map (\<lambda>k. d * 2 ^ k) [0..<Suc n] = d # map (\<lambda>k. d * 2 ^ Suc k) [0..<n]"
    by (simp only: upt_conv_Cons [of 0 "Suc n"] map_Suc_upt [symmetric]) simp
  with Suc show ?case
    by (simp add: mult.assoc)
qed

lemma worldBefore_alwaysQuota: "worldBefore alwaysQuota w k = w + k"
  by (induction k arbitrary: w) (simp_all add: alwaysQuota_def)

lemma readable_apiError429: "readable apiError429 \<and> rateLimitClassified apiError429"
  by (simp add: readable_def rateLimitClassified_def apiError429_def)


lemma isRateLimit_plainError: "isRateLimit plainError = Inr False"
  by (simp add: isRateLimit_def plainError_def js_def toLowerCase_def)

lemma readable_plainError: "readable plainError \<and> \<not> rateLimitClassified plainError"
  by (simp add: readable_def rateLimitClassified_def mentionsRateLimit_def plainError_def js_def
      toLowerCase_def)

lemma withRetry_verdict_false:
  "fn w = (Inl e, w') \<Longrightarrow> isRateLimit e = Inr False \<Longrightarrow>
   withRetry fn retries delay w = (Inl e, w', [Invoked])"
  by (subst withRetry.simps) simp

text \<open>What the classification throws leaves the executor after the one call.\<close>

lemma withRetry_classification_throws:
  "fn w = (Inl e, w') \<Longrightarrow> isRateLimit e = Inl x \<Longrightarrow>
   withRetry fn retries delay w = (Inl x, w', [Invoked])"
  by (subst withRetry.simps) simp

text \<open>
  C1, as stated, fails: a cyclic object with the status 429 meets the condition of the
  claim (its field \<^verbatim>\<open>status\<close> equals 429), and an operation that throws it at every call is
  called once, not \<open>3 + 1\<close> times: \<^verbatim>\<open>JSON.stringify\<close> throws before the field is read, and its
  TypeError leaves the executor.
\<close>

theorem withRetry_unreadable_429_once:
  "rateLimitClassified cyclic429 \<and>
   attempt alwaysCyclic 0 0 = Inl cyclic429 \<and> attempt alwaysCyclic 0 1 = Inl cyclic429 \<and>
   attempt alwaysCyclic 0 2 = Inl cyclic429 \<and> attempt alwaysCyclic 0 3 = Inl cyclic429 \<and>
   withRetry alwaysCyclic 3 3000 0 = (Inl plainError, 1, [Invoked]) \<and>
   invocations (snd (snd (withRetry alwaysCyclic 3 3000 0))) \<noteq> 3 + 1"
proof -
  have "isRateLimit cyclic429 = Inl plainError"
    by (simp add: isRateLimit_def cyclic429_def)
  then have run: "withRetry alwaysCyclic 3 3000 0 = (Inl plainError, 1, [Invoked])"
    by (intro withRetry_classification_throws) (simp_all add: alwaysCyclic_def)
  have "worldBefore alwaysCyclic w k = w + k" for w k
    by (induction k arbitrary: w) (simp_all add: alwaysCyclic_def)
  then have "attempt alwaysCyclic 0 k = Inl cyclic429" for k
    by (simp add: attempt_def alwaysCyclic_def)
  then show ?thesis
    by (simp add: run invocations_def rateLimitClassified_def cyclic429_def)
qed

text \<open>
  C1, amended. When every call of the wrapped operation throws a value that can be read
  (\<^verbatim>\<open>JSON.stringify\<close> gives a text, and the fields \<^verbatim>\<open>status\<close> and \<^verbatim>\<open>code\<close> are read without a throw)
  and that is classified as rate limit (the text contains \<^verbatim>\<open>429\<close> or \<^verbatim>\<open>quota\<close>, or one of the
  two fields equals 429), a run with the retry count \<open>retries\<close> calls the operation
  \<open>retries + 1\<close> times, waits \<open>delay\<close>, \<open>delay * 2\<close>, \<open>delay * 4\<close>, ... between the calls (one
  wait after each call but the last), and throws what the last call threw. The retry
  count is not negative, and the numbers are in the range where the arithmetic of the
  source is exact.
\<close>

theorem withRetry_rate_limit_exhausts:
  assumes "0 \<le> retries" and "exactNumbers retries delay"
    and "\<forall>k\<le>nat retries. rateLimited (attempt fn w k)"
  shows "withRetry fn retries delay w =
           (attempt fn w (nat retries), worldBefore fn w (Suc (nat retries)),
            backoff (nat retries) delay @ [Invoked]) \<and>
         invocations (snd (snd (withRetry fn retries delay w))) = nat retries + 1 \<and>
         waits (snd (snd (withRetry fn retries delay w))) =
           map (\<lambda>k. delay * 2 ^ k) [0..<nat retries] \<and>
         (\<exists>e. fst (withRetry fn retries delay w) = Inl e \<and>
              attempt fn w (nat retries) = Inl e)"
proof -
  have run: "withRetry fn retries delay w =
           (attempt fn w (nat retries), worldBefore fn w (Suc (nat retries)),
            backoff (nat retries) delay @ [Invoked])"
    using assms(1,3) by (intro withRetry_backoff) simp_all
  have calls: "invocations (snd (snd (withRetry fn retries delay w))) = nat retries + 1"
    by (simp add: run invocations_backoff)
  have pauses: "waits (snd (snd (withRetry fn retries delay w))) =
           map (\<lambda>k. delay * 2 ^ k) [0..<nat retries]"
    by (simp add: run waits_backoff)
  from assms(3) have "rateLimited (attempt fn w (nat retries))"
    by simp
  then have last: "\<exists>e. fst (withRetry fn retries delay w) = Inl e \<and>
             attempt fn w (nat retries) = Inl e"
    by (auto simp: run rateLimited_def split: sum.splits)
  from run calls pauses last show ?thesis
    by blast
qed

theorem withRetry_rate_limit_exhausts_witness:
  "withRetry alwaysQuota 3 3000 0 =
     (Inl apiError429, 4,
      [Invoked, Waited 3000, Invoked, Waited 6000, Invoked, Waited 12000, Invoked]) \<and>
   invocations (snd (snd (withRetry alwaysQuota 3 3000 0))) = 4 \<and>
   waits (snd (snd (withRetry alwaysQuota 3 3000 0))) = [3000, 6000, 12000]"
proof -
  have range: "exactNumbers 3 3000"
    by (simp add: exactNumbers_def)
  have "\<forall>k\<le>nat 3. rateLimited (attempt alwaysQuota 0 k)"
    by (simp add: attempt_def alwaysQuota_def rateLimited_def readable_apiError429)
  from withRetry_rate_limit_exhausts [OF _ range this] show ?thesis
    by (simp add: attempt_def worldBefore_alwaysQuota alwaysQuota_def eval_nat_numeral
        invocations_def)
qed

lemma isRateLimit_not_classified:
  assumes "\<not> rateLimitClassified e"
  shows "isRateLimit e \<noteq> Inr True"
proof (cases e)
  case (Thrown j s c)
  show ?thesis
  proof (cases j)
    case (Text str)
    with Thrown assms have quiet: "\<not> mentionsRateLimit str"
      and s: "s \<noteq> Holds (Some 429)" and c: "c \<noteq> Holds (Some 429)"
      by (simp_all add: rateLimitClassified_def)
    from quiet have tests:
      "\<not> (includesStr (toLowerCase str) (js ''429'') \<or> includesStr (toLowerCase str) (js ''quota''))"
      by (simp add: mentionsRateLimit_def)
    show ?thesis
    proof (cases s)
      case (Raises x)
      with Thrown Text tests show ?thesis
        by (simp add: isRateLimit_def)
    next
      case (Holds sv)
      with s have sv: "sv \<noteq> Some 429"
        by simp
      show ?thesis
      proof (cases c)
        case (Raises x)
        with Thrown Text tests Holds sv show ?thesis
          by (simp add: isRateLimit_def)
      next
        case cv: (Holds cv)
        with c have "cv \<noteq> Some 429"
          by simp
        with Thrown Text tests Holds sv cv show ?thesis
          by (simp add: isRateLimit_def)
      qed
    qed
  next
    case NoText
    with Thrown show ?thesis
      by (simp add: isRateLimit_def)
  next
    case (Throws x)
    with Thrown show ?thesis
      by (simp add: isRateLimit_def)
  qed
qed

text \<open>
  C2, as stated, fails: the value \<^verbatim>\<open>undefined\<close> is not classified as rate limit, and an
  operation that throws it is called once, but the executor throws a TypeError (the
  call of \<^verbatim>\<open>toLowerCase\<close> on the missing text), not \<^verbatim>\<open>undefined\<close>.
\<close>

theorem withRetry_undefined_not_rethrown:
  "\<not> rateLimitClassified undefinedValue \<and>
   alwaysUndefined 0 = (Inl undefinedValue, 1) \<and>
   withRetry alwaysUndefined 3 3000 0 = (Inl plainError, 1, [Invoked]) \<and>
   plainError \<noteq> undefinedValue"
proof -
  have "isRateLimit undefinedValue = Inl plainError"
    by (simp add: isRateLimit_def undefinedValue_def)
  then have "withRetry alwaysUndefined 3 3000 0 = (Inl plainError, 1, [Invoked])"
    by (intro withRetry_classification_throws) (simp_all add: alwaysUndefined_def)
  then show ?thesis
    by (simp add: rateLimitClassified_def undefinedValue_def alwaysUndefined_def plainError_def)
qed

text \<open>
  C2, amended. When the wrapped operation throws a value that is not classified as rate
  limit, the operation is called once and nothing is waited for, whatever the retry
  count and the delay; and when that value can be read (\<^verbatim>\<open>JSON.stringify\<close> gives a text, and
  the fields \<^verbatim>\<open>status\<close> and \<^verbatim>\<open>code\<close> are read without a throw), the executor throws that same
  value.
\<close>

theorem withRetry_other_error_once:
  assumes "fn w = (Inl e, w')" and "\<not> rateLimitClassified e"
  shows "(\<exists>r. withRetry fn retries delay w = (Inl r, w', [Invoked])) \<and>
         (readable e \<longrightarrow> withRetry fn retries delay w = (Inl e, w', [Invoked]))"
proof -
  have "isRateLimit e \<noteq> Inr True"
    using assms(2) by (rule isRateLimit_not_classified)
  then consider x where "isRateLimit e = Inl x" | "isRateLimit e = Inr False"
    by (cases "isRateLimit e") auto
  then have once: "\<exists>r. withRetry fn retries delay w = (Inl r, w', [Invoked])"
  proof cases
    case 1
    with assms(1) have "withRetry fn retries delay w = (Inl x, w', [Invoked])"
      by (rule withRetry_classification_throws)
    then show ?thesis
      by (rule exI)
  next
    case 2
    with assms(1) have "withRetry fn retries delay w = (Inl e, w', [Invoked])"
      by (rule withRetry_verdict_false)
    then show ?thesis
      by (rule exI)
  qed
  have same: "readable e \<longrightarrow> withRetry fn retries delay w = (Inl e, w', [Invoked])"
  proof
    assume "readable e"
    then have "isRateLimit e = Inr False"
      using assms(2) by (simp add: isRateLimit_readable)
    with assms(1) show "withRetry fn retries delay w = (Inl e, w', [Invoked])"
      by (rule withRetry_verdict_false)
  qed
  from once same show ?thesis
    by (rule conjI)
qed

theorem withRetry_other_error_once_witness:
  "withRetry alwaysBroken 3 3000 0 = (Inl plainError, 1, [Invoked])"
  using withRetry_other_error_once [of alwaysBroken 0 plainError 1 3 3000]
  by (simp add: alwaysBroken_def readable_plainError)

text \<open>
  When every value the operation throws can be read, the classification never throws,
  and whatever the executor throws can be read.
\<close>

lemma withRetry_throws_readable:
  "\<forall>w e w'. fn w = (Inl e, w') \<longrightarrow> readable e \<Longrightarrow>
   withRetry fn retries delay w = (Inl e, w', tr) \<Longrightarrow> readable e"
proof (induction fn retries delay w arbitrary: tr rule: withRetry.induct)
  case (1 fn retries delay w)
  obtain r w1 where fw: "fn w = (r, w1)"
    by (cases "fn w")
  show ?case
  proof (cases r)
    case (Inr v)
    with fw "1.prems"(2) show ?thesis
      by (simp add: withRetry.simps [of fn retries delay w])
  next
    case (Inl error)
    with fw "1.prems"(1) have ok: "readable error"
      by blast
    then have verdict: "isRateLimit error = Inr (rateLimitClassified error)"
      by (rule isRateLimit_readable)
    show ?thesis
    proof (cases "retries > 0 \<and> rateLimitClassified error")
      case True
      obtain r2 w2 tr2 where rec: "withRetry fn (retries - 1) (delay * 2) w1 = (r2, w2, tr2)"
        by (cases "withRetry fn (retries - 1) (delay * 2) w1")
      with "1.IH" [OF fw [symmetric] Inl verdict True "1.prems"(1)] "1.prems"(2) fw Inl
        verdict True
      show ?thesis
        by (simp add: withRetry.simps [of fn retries delay w])
    next
      case False
      with fw Inl verdict "1.prems"(2) have "error = e"
        by (auto simp: withRetry.simps [of fn retries delay w])
      with ok show ?thesis
        by simp
    qed
  qed
qed

section \<open>Properties of the extraction step\<close>

lemma includesStr_iff: "includesStr s pat \<longleftrightarrow> (\<exists>a b. s = a @ pat @ b)"
proof (induction s)
  case Nil
  show ?case by auto
next
  case (Cons c cs)
  show ?case
  proof
    assume "includesStr (c # cs) pat"
    then consider "prefix pat (c # cs)" | "includesStr cs pat" by auto
    then show "\<exists>a b. c # cs = a @ pat @ b"
    proof cases
      case 1
      then obtain b where "c # cs = pat @ b" by (auto simp: prefix_def)
      then have "c # cs = [] @ pat @ b" by simp
      then show ?thesis by blast
    next
      case 2
      with Cons obtain a b where "cs = a @ pat @ b" by blast
      then have "c # cs = (c # a) @ pat @ b" by simp
      then show ?thesis by blast
    qed
  next
    assume "\<exists>a b. c # cs = a @ pat @ b"
    then obtain a b where ab: "c # cs = a @ pat @ b" by blast
    show "includesStr (c # cs) pat"
    proof (cases a)
      case Nil
      with ab have "prefix pat (c # cs)" by (simp add: prefix_def)
      then show ?thesis by simp
    next
      case (Cons x a')
      with ab have "cs = a' @ pat @ b" by simp
      with Cons.IH show ?thesis by auto
    qed
  qed
qed

lemma splitFrom_none:
  "\<not> includesStr s sep \<Longrightarrow> splitFrom sep acc s = [rev acc @ s]"
  by (induction s arbitrary: acc) auto

lemma splitFrom_first:
  assumes "sep \<noteq> []" and "\<not> includesStr (pre @ butlast sep) sep"
  shows "splitFrom sep acc (pre @ sep @ rest) = (rev acc @ pre) # splitFrom sep [] rest"
  using assms(2)
proof (induction pre arbitrary: acc)
  case Nil
  with assms(1) show ?case
    by (cases sep) auto
next
  case (Cons c pre)
  have "\<not> prefix sep (c # pre @ sep @ rest)"
  proof
    assume p: "prefix sep (c # pre @ sep @ rest)"
    have "prefix ((c # pre) @ butlast sep) ((c # pre) @ sep @ rest)"
      using assms(1) by (metis append_butlast_last_id prefixI append.assoc same_prefix_prefix)
    with p have "prefix sep ((c # pre) @ butlast sep)"
      using assms(1) by (intro prefix_length_prefix [of sep _ "(c # pre) @ butlast sep"]) auto
    with Cons.prems show False by simp
  qed
  moreover from Cons.prems have "\<not> includesStr (pre @ butlast sep) sep" by simp
  ultimately show ?case
    using Cons.IH [of "c # acc"] by simp
qed

lemma splitFrom_not_Nil: "splitFrom sep acc s \<noteq> []"
  by (induction sep acc s rule: splitFrom.induct) auto

lemma includesStr_first:
  assumes "includesStr s pat" and "pat \<noteq> []"
  shows "\<exists>a b. s = a @ pat @ b \<and> \<not> includesStr (a @ butlast pat) pat"
  using assms(1)
proof (induction s)
  case Nil
  with assms(2) show ?case by simp
next
  case (Cons c cs)
  show ?case
  proof (cases "prefix pat (c # cs)")
    case True
    then obtain b where "c # cs = [] @ pat @ b" by (auto simp: prefix_def)
    moreover have "\<not> includesStr ([] @ butlast pat) pat"
    proof
      assume "includesStr ([] @ butlast pat) pat"
      then obtain a b where "butlast pat = a @ pat @ b"
        by (auto simp: includesStr_iff)
      then have "length (butlast pat) = length (a @ pat @ b)"
        by simp
      then have "length pat - 1 = length a + length pat + length b"
        by simp
      moreover from assms(2) have "0 < length pat"
        by simp
      ultimately show False
        by arith
    qed
    ultimately show ?thesis by blast
  next
    case False
    with Cons.prems have "includesStr cs pat" by simp
    with Cons.IH obtain a b where ab: "cs = a @ pat @ b" "\<not> includesStr (a @ butlast pat) pat"
      by blast
    have "\<not> prefix pat ((c # a) @ butlast pat)"
    proof
      assume "prefix pat ((c # a) @ butlast pat)"
      moreover have "prefix ((c # a) @ butlast pat) (c # cs)"
        using ab(1) assms(2) by (metis append_butlast_last_id prefixI append.assoc append_Cons same_prefix_prefix)
      ultimately show False using False by (meson prefix_order.trans)
    qed
    with ab have "c # cs = (c # a) @ pat @ b \<and> \<not> includesStr ((c # a) @ butlast pat) pat"
      by simp
    then show ?thesis by blast
  qed
qed

lemma includesStr_append: "includesStr s pat \<Longrightarrow> includesStr (s @ t) pat"
proof -
  assume "includesStr s pat"
  then obtain a b where "s = a @ pat @ b"
    by (auto simp: includesStr_iff)
  then have "s @ t = a @ pat @ (b @ t)"
    by simp
  then show ?thesis
    unfolding includesStr_iff by blast
qed

lemma fenceHtml_fence: "fenceHtml = fence @ js ''html''"
  by (simp add: fenceHtml_def fence_def js_def)

lemma fence_not_Nil: "fence \<noteq> []" "fenceHtml \<noteq> []"
  by (simp_all add: fenceHtml_def fence_def js_def)

lemma at_0: "at (x # xs) 0 = Some x"
  by (simp add: at_def)

lemma at_1: "at (x # y # ys) 1 = Some y"
  by (simp add: at_def)

lemma split_first:
  assumes "sep \<noteq> []" and "\<not> includesStr (pre @ butlast sep) sep"
  shows "split (pre @ sep @ rest) sep = pre # splitFrom sep [] rest"
  using assms splitFrom_first [of sep pre "[]" rest] by (simp add: split_def)

lemma split_none:
  assumes "sep \<noteq> []" and "\<not> includesStr s sep"
  shows "split s sep = [s]"
  using assms splitFrom_none [of s sep "[]"] by (simp add: split_def)

lemma includesStr_fenceHtml: "includesStr s fenceHtml \<Longrightarrow> includesStr s fence"
proof -
  assume "includesStr s fenceHtml"
  then obtain a b where "s = a @ fence @ (js ''html'' @ b)"
    by (auto simp: includesStr_iff fenceHtml_fence)
  then show ?thesis
    unfolding includesStr_iff by blast
qed

lemma fence_then_html:
  assumes inner: "\<not> includesStr (inner @ butlast fence) fence"
    and eq: "inner @ fence @ post = a @ fenceHtml @ b"
    and post1: "\<not> prefix (96 # js ''html'') post"
    and post2: "\<not> prefix (96 # 96 # js ''html'') post"
  shows "a = inner \<or> (\<exists>r. a = inner @ fence @ r)"
proof -
  have f: "fence = [96, 96, 96]"
    by (simp add: fence_def js_def)
  have fh: "fenceHtml = 96 # 96 # 96 # js ''html''"
    by (simp add: fenceHtml_def js_def)
  from eq obtain us where
    "inner = a @ us \<and> us @ fence @ post = fenceHtml @ b \<or>
     inner @ us = a \<and> fence @ post = us @ fenceHtml @ b"
    unfolding append_eq_append_conv2 [of inner "fence @ post" a "fenceHtml @ b"] by blast
  then show ?thesis
  proof
    assume h: "inner = a @ us \<and> us @ fence @ post = fenceHtml @ b"
    show ?thesis
    proof (cases us)
      case Nil
      with h show ?thesis by simp
    next
      case (Cons u us')
      from h have p1: "prefix fence (us @ fence @ post)"
        by (simp add: prefix_def f fh)
      have p2: "prefix (us @ butlast fence) (us @ fence @ post)"
        by (simp add: f)
      have "length fence \<le> length (us @ butlast fence)"
        using Cons by (simp add: f)
      with p1 p2 have "prefix fence (us @ butlast fence)"
        by (rule prefix_length_prefix)
      then obtain d where "us @ butlast fence = fence @ d"
        by (auto simp: prefix_def)
      with h have "inner @ butlast fence = a @ fence @ d"
        by simp
      with inner show ?thesis
        unfolding includesStr_iff by blast
    qed
  next
    assume h: "inner @ us = a \<and> fence @ post = us @ fenceHtml @ b"
    then have a: "a = inner @ us" and tail: "fence @ post = us @ fenceHtml @ b"
      by simp_all
    show ?thesis
    proof (cases us)
      case Nil
      with a show ?thesis by simp
    next
      case c1: (Cons x us1)
      show ?thesis
      proof (cases us1)
        case Nil
        with c1 tail have "post = (96 # js ''html'') @ b"
          by (simp add: f fh)
        with post1 show ?thesis
          by (simp add: prefix_def)
      next
        case c2: (Cons y us2)
        show ?thesis
        proof (cases us2)
          case Nil
          with c1 c2 tail have "post = (96 # 96 # js ''html'') @ b"
            by (simp add: f fh)
          with post2 show ?thesis
            by (simp add: prefix_def)
        next
          case c3: (Cons z us3)
          with c1 c2 tail have "us = fence @ us3"
            by (simp add: f)
          with a show ?thesis
            by simp
        qed
      qed
    qed
  qed
qed

lemma extract_labelled:
  assumes pre: "\<not> includesStr (pre @ butlast fenceHtml) fenceHtml"
    and inner: "\<not> includesStr (inner @ butlast fence) fence"
    and post1: "\<not> prefix (96 # js ''html'') post"
    and post2: "\<not> prefix (96 # 96 # js ''html'') post"
  shows "extractHtml (pre @ fenceHtml @ inner @ fence @ post) = Inr (trim inner)"
proof -
  let ?Y = "inner @ fence @ post"
  have inc: "includesStr (pre @ fenceHtml @ ?Y) fenceHtml"
    unfolding includesStr_iff by blast
  have sp: "split (pre @ fenceHtml @ ?Y) fenceHtml = pre # splitFrom fenceHtml [] ?Y"
    using fence_not_Nil(2) pre by (rule split_first)
  have no_inner: "\<not> includesStr inner fence"
    using inner includesStr_append by blast
  have "\<exists>part xs. splitFrom fenceHtml [] ?Y = part # xs \<and>
          (part = inner \<or> (\<exists>r. part = inner @ fence @ r))"
  proof (cases "includesStr ?Y fenceHtml")
    case False
    then have "splitFrom fenceHtml [] ?Y = ?Y # []"
      by (simp add: splitFrom_none)
    then show ?thesis
      by blast
  next
    case True
    then obtain a b where ab: "?Y = a @ fenceHtml @ b"
      and first: "\<not> includesStr (a @ butlast fenceHtml) fenceHtml"
      using includesStr_first [OF _ fence_not_Nil(2)] by blast
    have "a = inner \<or> (\<exists>r. a = inner @ fence @ r)"
      using inner ab post1 post2 by (rule fence_then_html)
    moreover have "splitFrom fenceHtml [] ?Y = a # splitFrom fenceHtml [] b"
      using splitFrom_first [OF fence_not_Nil(2) first, of "[]" b] ab by simp
    ultimately show ?thesis
      by blast
  qed
  then obtain part xs where parts: "splitFrom fenceHtml [] ?Y = part # xs"
    and part: "part = inner \<or> (\<exists>r. part = inner @ fence @ r)"
    by blast
  from sp parts have one: "at (split (pre @ fenceHtml @ ?Y) fenceHtml) 1 = Some part"
    by (simp add: at_1)
  from part have "at (split part fence) 0 = Some inner"
  proof
    assume "part = inner"
    then show ?thesis
      using split_none [OF fence_not_Nil(1) no_inner] by (simp add: at_0)
  next
    assume "\<exists>r. part = inner @ fence @ r"
    then obtain r where "part = inner @ fence @ r"
      by blast
    then show ?thesis
      using split_first [OF fence_not_Nil(1) inner, of r] by (simp add: at_0)
  qed
  with inc one show ?thesis
    by (simp add: extractHtml_def)
qed

lemma extract_plain:
  assumes html: "\<not> includesStr (pre @ fence @ inner @ fence @ post) fenceHtml"
    and pre: "\<not> includesStr (pre @ butlast fence) fence"
    and inner: "\<not> includesStr (inner @ butlast fence) fence"
  shows "extractHtml (pre @ fence @ inner @ fence @ post) = Inr (trim inner)"
proof -
  let ?text = "pre @ fence @ inner @ fence @ post"
  have inc: "includesStr ?text fence"
    unfolding includesStr_iff by blast
  have "split ?text fence = pre # splitFrom fence [] (inner @ fence @ post)"
    using fence_not_Nil(1) pre by (rule split_first)
  also have "splitFrom fence [] (inner @ fence @ post) = inner # splitFrom fence [] post"
    using splitFrom_first [OF fence_not_Nil(1) inner, of "[]" post] by simp
  finally have "at (split ?text fence) 1 = Some inner"
    by (simp add: at_1)
  moreover have "\<not> includesStr inner fence"
    using inner includesStr_append by blast
  then have "at (split inner fence) 0 = Some inner"
    using split_none [OF fence_not_Nil(1)] by (simp add: at_0)
  ultimately show ?thesis
    using html inc by (simp add: extractHtml_def)
qed

lemma extract_bare:
  assumes "\<not> includesStr raw fence"
  shows "extractHtml raw = Inr (trim raw)"
  using assms includesStr_fenceHtml [of raw] by (auto simp: extractHtml_def)

text \<open>
  C4. The extraction step on the raw text of a response. When the text holds a fence
  labelled \<^verbatim>\<open>```html\<close>, the inner text runs from the first such fence to the next \<^verbatim>\<open>```\<close>,
  and the step returns it trimmed; what stands before the opening fence and after the
  closing one is dropped (the text after the closing fence must not begin the label
  again with a backtick of its own, \<^verbatim>\<open>`html\<close> or \<^verbatim>\<open>``html\<close>). When the text holds no labelled fence
  but a plain \<^verbatim>\<open>```\<close> pair, the text between the first two fences is returned trimmed.
  When the text holds no fence, the whole text is returned trimmed.
\<close>

theorem extractHtml_fenced_or_bare:
  "(\<not> includesStr (pre @ butlast fenceHtml) fenceHtml \<longrightarrow>
    \<not> includesStr (inner @ butlast fence) fence \<longrightarrow>
    \<not> prefix (96 # js ''html'') post \<longrightarrow> \<not> prefix (96 # 96 # js ''html'') post \<longrightarrow>
      extractHtml (pre @ fenceHtml @ inner @ fence @ post) = Inr (trim inner)) \<and>
   (\<not> includesStr (pre @ fence @ inner @ fence @ post) fenceHtml \<longrightarrow>
    \<not> includesStr (pre @ butlast fence) fence \<longrightarrow>
    \<not> includesStr (inner @ butlast fence) fence \<longrightarrow>
      extractHtml (pre @ fence @ inner @ fence @ post) = Inr (trim inner)) \<and>
   (\<not> includesStr raw fence \<longrightarrow> extractHtml raw = Inr (trim raw))"
  using extract_labelled extract_plain extract_bare by blast

lemma trim_example: "trim (js '' <p>hi</p> '') = js ''<p>hi</p>''"
  by (simp add: trim_def js_def isWhiteSpace_def)

theorem extractHtml_fenced_or_bare_witness:
  "extractHtml (js ''Sure: ```html <p>hi</p> ``` done'') = Inr (js ''<p>hi</p>'') \<and>
   extractHtml (js ''Sure: ``` <p>hi</p> ``` done'') = Inr (js ''<p>hi</p>'') \<and>
   extractHtml (js '' <p>hi</p> '') = Inr (js ''<p>hi</p>'')"
proof -
  have a: "js ''Sure: ```html <p>hi</p> ``` done'' =
             js ''Sure: '' @ fenceHtml @ js '' <p>hi</p> '' @ fence @ js '' done''"
    and b: "js ''Sure: ``` <p>hi</p> ``` done'' =
             js ''Sure: '' @ fence @ js '' <p>hi</p> '' @ fence @ js '' done''"
    by (simp_all add: js_def fenceHtml_def fence_def)
  have h1: "\<not> includesStr (js ''Sure: '' @ butlast fenceHtml) fenceHtml"
    and h2: "\<not> includesStr (js '' <p>hi</p> '' @ butlast fence) fence"
    and h3: "\<not> prefix (96 # js ''html'') (js '' done'')"
      "\<not> prefix (96 # 96 # js ''html'') (js '' done'')"
    and h4: "\<not> includesStr
               (js ''Sure: '' @ fence @ js '' <p>hi</p> '' @ fence @ js '' done'') fenceHtml"
    and h5: "\<not> includesStr (js ''Sure: '' @ butlast fence) fence"
    and h6: "\<not> includesStr (js '' <p>hi</p> '') fence"
    by (simp_all add: js_def fenceHtml_def fence_def)
  from extractHtml_fenced_or_bare
         [of "js ''Sure: ''" "js '' <p>hi</p> ''" "js '' done''" "js '' <p>hi</p> ''"]
    h1 h2 h3 h4 h5 h6
  show ?thesis
    unfolding a b by (simp add: trim_example)
qed

section \<open>Properties of the workflow controller\<close>

lemma dropWhile_all: "(\<forall>x\<in>set (dropWhile P s). P x) \<longleftrightarrow> (\<forall>x\<in>set s. P x)"
proof
  assume h: "\<forall>x\<in>set (dropWhile P s). P x"
  have "dropWhile P s = []"
  proof (cases "dropWhile P s")
    case Nil
    then show ?thesis .
  next
    case (Cons y ys)
    then have "\<not> P (hd (dropWhile P s))"
      using hd_dropWhile [of P s] by simp
    with Cons h show ?thesis
      by simp
  qed
  then show "\<forall>x\<in>set s. P x"
    by (simp add: dropWhile_eq_Nil_conv)
next
  assume "\<forall>x\<in>set s. P x"
  then show "\<forall>x\<in>set (dropWhile P s). P x"
    by (meson set_dropWhileD)
qed

lemma trim_Nil_iff: "trim s = [] \<longleftrightarrow> (\<forall>c\<in>set s. isWhiteSpace c)"
  by (simp add: trim_def dropWhile_eq_Nil_conv dropWhile_all)


text \<open>
  C6. With an input text that is empty or holds only white space, \<^verbatim>\<open>handleAnalyze\<close> returns at
  once: the state (workflow, blueprint, current card, error message) is what it was, and
  nothing is sent to the capability. This holds in every state, \<open>IDLE\<close> among them.
\<close>

theorem handleAnalyze_blank:
  assumes "\<forall>c\<in>set (inputText st). isWhiteSpace c"
  shows "handleAnalyze ai parse st wd = (st, wd, None)"
  using assms by (simp add: handleAnalyze_def trim_Nil_iff)

theorem handleAnalyze_blank_witness:
  "workflow blankState = IDLE \<and>
   handleAnalyze htmlService demoParse blankState newWorld = (blankState, newWorld, None)"
proof -
  have "\<forall>c\<in>set (inputText blankState). isWhiteSpace c"
    by (simp add: blankState_def isWhiteSpace_def)
  from handleAnalyze_blank [OF this] show ?thesis
    by (simp add: blankState_def idleState_def)
qed



text \<open>
  A capability that throws only values that can be read: then whatever a generation
  throws has a serialised text.
\<close>

lemma readable_has_text: "readable e \<Longrightarrow> \<exists>str. json e = Text str"
  by (cases "json e") (simp_all add: readable_def)

lemma analysis_failure_readable:
  assumes "\<forall>req v e v'. ai req v = (Inl e, v') \<longrightarrow> readable e"
    and "analyzeDocument ai parse txt preferredStyle wd = (Inl err, wd', tr)"
  shows "readable err"
proof -
  have "\<forall>w e w'. analyzeOnce ai parse txt preferredStyle w = (Inl e, w') \<longrightarrow> readable e"
    using assms(1) readable_plainError
    by (auto simp: analyzeOnce_def generateContent_def
        split: prod.splits sum.splits option.splits)
  then show ?thesis
    using assms(2) unfolding analyzeDocument_def by (rule withRetry_throws_readable)
qed

lemma extractHtml_throws: "extractHtml raw = Inl e \<Longrightarrow> e = plainError"
  by (auto simp: extractHtml_def split: if_splits option.splits)

lemma render_failure_readable:
  assumes "\<forall>req v e v'. ai req v = (Inl e, v') \<longrightarrow> readable e"
    and "generateCardHTML ai bp idx wd = (Inl err, wd', tr)"
  shows "readable err"
proof -
  have "\<forall>w e w'. renderOnce ai bp idx w = (Inl e, w') \<longrightarrow> readable e"
    using assms(1) readable_plainError
    by (auto simp: renderOnce_def generateContent_def
        split: prod.splits sum.splits option.splits dest: extractHtml_throws)
  then show ?thesis
    using assms(2) unfolding generateCardHTML_def by (rule withRetry_throws_readable)
qed



lemma render_broken:
  "generateCardHTML brokenService demoBlueprint 1 newWorld =
     (Inl plainError,
      \<lparr>sent = [RenderRequest \<lparr>CardOutline.title = js ''Part 1'', points = [js ''a'', js ''b'']\<rparr>
                 Modern (js ''#112233'') (js ''#445566'') 2 2 False], env = 1\<rparr>,
      [Invoked])"
  by (simp add: generateCardHTML_def withRetry.simps renderOnce_def generateContent_def
      brokenService_def newWorld_def isRateLimit_plainError demoBlueprint_def at_def
      renderPrompt_def)






lemma renderOnce_sends:
  "at (cardOutlines bp) idx = Some outline \<Longrightarrow>
   sent (snd (renderOnce ai bp idx wd)) = sent wd @ [renderPrompt bp idx outline]"
  by (auto simp: renderOnce_def generateContent_def split: prod.splits sum.splits option.splits)

lemma withRetry_sent:
  "\<forall>w. sent (snd (fn w)) = sent w @ [req] \<Longrightarrow>
   withRetry fn retries delay w = (r, w', tr) \<Longrightarrow>
   \<exists>k. sent w' = sent w @ replicate (Suc k) req"
proof (induction fn retries delay w arbitrary: r w' tr rule: withRetry.induct)
  case (1 fn retries delay w)
  obtain x w1 where fw: "fn w = (x, w1)"
    by (cases "fn w")
  from "1.prems"(1) have "sent (snd (fn w)) = sent w @ [req]"
    by blast
  with fw have s1: "sent w1 = sent w @ [req]"
    by simp
  show ?case
  proof (cases "\<exists>e rl. x = Inl e \<and> isRateLimit e = Inr rl \<and> retries > 0 \<and> rl")
    case False
    with fw "1.prems"(2) have "w' = w1"
      by (auto simp: withRetry.simps [of fn retries delay w] split: sum.splits if_splits)
    with s1 have "sent w' = sent w @ replicate (Suc 0) req"
      by simp
    then show ?thesis
      by blast
  next
    case True
    then obtain e rl where x: "x = Inl e" and rl: "isRateLimit e = Inr rl"
      and go: "retries > 0 \<and> rl"
      by blast
    obtain r2 w2 tr2 where rec: "withRetry fn (retries - 1) (delay * 2) w1 = (r2, w2, tr2)"
      by (cases "withRetry fn (retries - 1) (delay * 2) w1")
    with fw x rl go "1.prems"(2) have "w' = w2"
      by (simp add: withRetry.simps [of fn retries delay w])
    moreover from "1.IH" [OF fw [symmetric] x rl go "1.prems"(1) rec]
    obtain k where "sent w2 = sent w1 @ replicate (Suc k) req"
      by blast
    ultimately have "sent w' = sent w @ replicate (Suc (Suc k)) req"
      using s1 by simp
    then show ?thesis
      by blast
  qed
qed

lemma generateCardHTML_sends:
  assumes "at (cardOutlines bp) idx = Some outline"
  shows "\<exists>k. sent (fst (snd (generateCardHTML ai bp idx wd))) =
              sent wd @ replicate (Suc k) (renderPrompt bp idx outline)"
proof -
  obtain r w' tr where run: "generateCardHTML ai bp idx wd = (r, w', tr)"
    by (cases "generateCardHTML ai bp idx wd")
  then have "withRetry (renderOnce ai bp idx) 3 3000 wd = (r, w', tr)"
    by (simp add: generateCardHTML_def)
  then have "\<exists>k. sent w' = sent wd @ replicate (Suc k) (renderPrompt bp idx outline)"
    using renderOnce_sends [OF assms] by (intro withRetry_sent) auto
  with run show ?thesis
    by simp
qed

lemma handleGenerateCard_world:
  "blueprint st = Some bp \<Longrightarrow>
   fst (snd (handleGenerateCard ai st idx wd)) = fst (snd (generateCardHTML ai bp idx wd))"
  by (auto simp: handleGenerateCard_def Let_def split: prod.splits sum.splits option.splits)

lemma generateCardHTML_out_of_range:
  assumes "at (cardOutlines bp) idx = None"
  shows "generateCardHTML ai bp idx wd = (Inl plainError, wd, [Invoked])"
  unfolding generateCardHTML_def using assms
  by (intro withRetry_verdict_false) (simp_all add: renderOnce_def isRateLimit_plainError)

lemma at_in_range:
  "0 \<le> i \<Longrightarrow> i < int (length xs) \<Longrightarrow> at xs i = Some (xs ! nat i)"
  by (simp add: at_def)

lemma at_out_of_range: "\<not> (0 \<le> i \<and> i < int (length xs)) \<Longrightarrow> at xs i = None"
  by (auto simp: at_def)

text \<open>
  C7. With a blueprint of \<open>N\<close> outlines stored and a current card: when the index of the
  current card is \<open>N - 1\<close>, \<^verbatim>\<open>handleNext\<close> does nothing (the state and the world are what they
  were, so nothing is sent); when the index is a valid index below \<open>N - 1\<close>, \<^verbatim>\<open>handleNext\<close> is
  \<^verbatim>\<open>handleGenerateCard\<close> at the next index, and what it sends is the render request for
  that index: the outline at \<open>index + 1\<close>, the style and the two colours of the blueprint,
  the position \<open>index + 2\<close> of \<open>N\<close>, and no cover flag. The request is sent once for every
  attempt of the retry executor, and at least once.
\<close>

theorem handleNext_last_or_advance:
  assumes "blueprint st = Some bp" and "currentCard st = Some cur"
  shows "(index cur = int (length (cardOutlines bp)) - 1 \<longrightarrow>
            handleNext ai st wd = (st, wd, None)) \<and>
         (0 \<le> index cur \<longrightarrow> index cur < int (length (cardOutlines bp)) - 1 \<longrightarrow>
            handleNext ai st wd = handleGenerateCard ai st (index cur + 1) wd \<and>
            (\<exists>k. sent (fst (snd (handleNext ai st wd))) =
                   sent wd @ replicate (Suc k)
                     (RenderRequest (cardOutlines bp ! nat (index cur + 1)) (style bp)
                        (themeColor bp) (secondaryColor bp) (index cur + 2)
                        (length (cardOutlines bp)) False)))"
proof (intro conjI impI)
  assume "index cur = int (length (cardOutlines bp)) - 1"
  with assms show "handleNext ai st wd = (st, wd, None)"
    by (simp add: handleNext_def)
next
  assume "0 \<le> index cur" and "index cur < int (length (cardOutlines bp)) - 1"
  with assms show "handleNext ai st wd = handleGenerateCard ai st (index cur + 1) wd"
    by (simp add: handleNext_def)
next
  assume lo: "0 \<le> index cur" and hi: "index cur < int (length (cardOutlines bp)) - 1"
  with assms have step: "handleNext ai st wd = handleGenerateCard ai st (index cur + 1) wd"
    by (simp add: handleNext_def)
  from lo hi have "at (cardOutlines bp) (index cur + 1) =
                     Some (cardOutlines bp ! nat (index cur + 1))"
    by (intro at_in_range) simp_all
  from generateCardHTML_sends [OF this, of ai wd]
  have "\<exists>k. sent (fst (snd (handleNext ai st wd))) =
               sent wd @ replicate (Suc k)
                 (renderPrompt bp (index cur + 1) (cardOutlines bp ! nat (index cur + 1)))"
    by (simp add: step handleGenerateCard_world [OF assms(1)])
  moreover from lo have
    "renderPrompt bp (index cur + 1) (cardOutlines bp ! nat (index cur + 1)) =
       RenderRequest (cardOutlines bp ! nat (index cur + 1)) (style bp) (themeColor bp)
         (secondaryColor bp) (index cur + 2) (length (cardOutlines bp)) False"
    by (simp add: renderPrompt_def)
  ultimately
  show "\<exists>k. sent (fst (snd (handleNext ai st wd))) =
               sent wd @ replicate (Suc k)
                 (RenderRequest (cardOutlines bp ! nat (index cur + 1)) (style bp)
                    (themeColor bp) (secondaryColor bp) (index cur + 2)
                    (length (cardOutlines bp)) False)"
    by simp
qed

lemma render_html:
  "generateCardHTML htmlService demoBlueprint 1 newWorld =
     (Inr (js ''<p>hi</p>''),
      \<lparr>sent = [renderPrompt demoBlueprint 1
                 \<lparr>CardOutline.title = js ''Part 1'', points = [js ''a'', js ''b'']\<rparr>],
       env = 1\<rparr>,
      [Invoked])"
proof -
  have "extractHtml ([] @ fenceHtml @ js '' <p>hi</p> '' @ fence @ []) =
          Inr (trim (js '' <p>hi</p> ''))"
    by (rule extract_labelled) (simp_all add: fenceHtml_def fence_def js_def)
  moreover have "[] @ fenceHtml @ js '' <p>hi</p> '' @ fence @ [] = js ''```html <p>hi</p> ```''"
    by (simp add: fenceHtml_def fence_def js_def)
  ultimately have "extractHtml (js ''```html <p>hi</p> ```'') = Inr (js ''<p>hi</p>'')"
    by (simp only: trim_example)
  then show ?thesis
    by (simp add: generateCardHTML_def withRetry.simps renderOnce_def generateContent_def
        htmlService_def newWorld_def demoBlueprint_def at_def)
qed

theorem handleNext_last_or_advance_witness:
  "handleNext htmlService lastState newWorld = (lastState, newWorld, None) \<and>
   handleNext htmlService shownState newWorld =
     (shownState\<lparr>error := None, currentCard := Some lastCard, workflow := CARD_READY\<rparr>,
      \<lparr>sent = [RenderRequest \<lparr>CardOutline.title = js ''Part 1'', points = [js ''a'', js ''b'']\<rparr>
                 Modern (js ''#112233'') (js ''#445566'') 2 2 False],
       env = 1\<rparr>, None)"
proof -
  have a: "blueprint lastState = Some demoBlueprint" "currentCard lastState = Some lastCard"
    "index lastCard = int (length (cardOutlines demoBlueprint)) - 1"
    by (simp_all add: lastState_def readyState_def lastCard_def demoBlueprint_def)
  have b: "blueprint shownState = Some demoBlueprint" "currentCard shownState = Some coverCard"
    "0 \<le> index coverCard" "index coverCard < int (length (cardOutlines demoBlueprint)) - 1"
    "index coverCard + 1 = 1"
    by (simp_all add: shownState_def readyState_def coverCard_def demoBlueprint_def)
  from handleNext_last_or_advance [OF a(1,2), of htmlService newWorld] a(3)
  have "handleNext htmlService lastState newWorld = (lastState, newWorld, None)"
    by blast
  moreover
  from handleNext_last_or_advance [OF b(1,2), of htmlService newWorld] b(3,4)
  have "handleNext htmlService shownState newWorld =
          handleGenerateCard htmlService shownState (index coverCard + 1) newWorld"
    by blast
  ultimately show ?thesis
    using b(1) render_html
    by (simp add: b(5) handleGenerateCard_def lastCard_def demoBlueprint_def at_def
        renderPrompt_def)
qed

text \<open>
  C10. With an index outside \<open>[0, N)\<close> the wrapped operation of \<^verbatim>\<open>generateCardHTML\<close> throws a
  TypeError with the world untouched (nothing is sent); the executor classifies the
  TypeError as not rate limit, so the run is the one call, without a wait, and throws
  it. With an index inside \<open>[0, N)\<close> the lookup of the outline yields the outline, and the
  operation sends the render request of that outline.
\<close>

theorem generateCardHTML_index:
  "(\<not> (0 \<le> idx \<and> idx < int (length (cardOutlines bp))) \<longrightarrow>
      renderOnce ai bp idx wd = (Inl plainError, wd) \<and>
      isRateLimit plainError = Inr False \<and>
      generateCardHTML ai bp idx wd = (Inl plainError, wd, [Invoked])) \<and>
   (0 \<le> idx \<and> idx < int (length (cardOutlines bp)) \<longrightarrow>
      at (cardOutlines bp) idx = Some (cardOutlines bp ! nat idx) \<and>
      sent (snd (renderOnce ai bp idx wd)) =
        sent wd @ [renderPrompt bp idx (cardOutlines bp ! nat idx)])"
proof (intro conjI impI)
  assume out: "\<not> (0 \<le> idx \<and> idx < int (length (cardOutlines bp)))"
  then have none: "at (cardOutlines bp) idx = None"
    by (rule at_out_of_range)
  then show "renderOnce ai bp idx wd = (Inl plainError, wd)"
    by (simp add: renderOnce_def)
  show "isRateLimit plainError = Inr False"
    by (rule isRateLimit_plainError)
  from none show "generateCardHTML ai bp idx wd = (Inl plainError, wd, [Invoked])"
    by (rule generateCardHTML_out_of_range)
next
  assume "0 \<le> idx \<and> idx < int (length (cardOutlines bp))"
  then show a: "at (cardOutlines bp) idx = Some (cardOutlines bp ! nat idx)"
    by (simp add: at_in_range)
  then show "sent (snd (renderOnce ai bp idx wd)) =
        sent wd @ [renderPrompt bp idx (cardOutlines bp ! nat idx)]"
    by (rule renderOnce_sends)
qed

theorem generateCardHTML_index_witness:
  "generateCardHTML htmlService demoBlueprint 2 newWorld = (Inl plainError, newWorld, [Invoked]) \<and>
   generateCardHTML htmlService demoBlueprint (- 1) newWorld =
     (Inl plainError, newWorld, [Invoked]) \<and>
   sent (snd (renderOnce htmlService demoBlueprint 1 newWorld)) =
     [renderPrompt demoBlueprint 1
        \<lparr>CardOutline.title = js ''Part 1'', points = [js ''a'', js ''b'']\<rparr>]"
proof -
  have "\<not> (0 \<le> (2::int) \<and> 2 < int (length (cardOutlines demoBlueprint)))"
    and "\<not> (0 \<le> (- 1::int) \<and> - 1 < int (length (cardOutlines demoBlueprint)))"
    and "0 \<le> (1::int) \<and> 1 < int (length (cardOutlines demoBlueprint))"
    by (simp_all add: demoBlueprint_def)
  with generateCardHTML_index [of 2 demoBlueprint htmlService newWorld]
    generateCardHTML_index [of "- 1" demoBlueprint htmlService newWorld]
    generateCardHTML_index [of 1 demoBlueprint htmlService newWorld]
  show ?thesis
    by (simp add: demoBlueprint_def newWorld_def)
qed

text \<open>
  C5, as stated, fails: the handlers do not read the workflow. Called in \<open>ANALYZING\<close> with a
  text, \<^verbatim>\<open>handleAnalyze\<close> sends an analysis request; called in \<open>GENERATING_CARD\<close> with a
  blueprint, \<^verbatim>\<open>handleGenerateCard\<close> sends a render request.
\<close>

theorem handlers_do_not_check_workflow:
  "workflow analysingState = ANALYZING \<and>
   sent (fst (snd (handleAnalyze brokenService demoParse analysingState newWorld))) =
     [AnalyzeRequest (js ''Hello world'') (js ''Auto'')] \<and>
   workflow generatingState = GENERATING_CARD \<and>
   sent (fst (snd (handleGenerateCard brokenService generatingState 1 newWorld))) =
     [renderPrompt demoBlueprint 1
        \<lparr>CardOutline.title = js ''Part 1'', points = [js ''a'', js ''b'']\<rparr>]"
proof -
  have "analyzeDocument brokenService demoParse (js ''Hello world'') (js ''Auto'') newWorld =
          (Inl plainError, \<lparr>sent = [AnalyzeRequest (js ''Hello world'') (js ''Auto'')], env = 1\<rparr>,
           [Invoked])"
    by (simp add: analyzeDocument_def withRetry.simps analyzeOnce_def generateContent_def
        brokenService_def newWorld_def isRateLimit_plainError)
  moreover have "trim (js ''Hello world'') \<noteq> []"
    by (simp add: trim_def js_def isWhiteSpace_def)
  moreover have "formatErrorMessage plainError = Inr GenerationFailed"
    by (simp add: formatErrorMessage_def plainError_def js_def toLowerCase_def)
  ultimately show ?thesis
    using render_broken
    by (simp add: handleAnalyze_def handleGenerateCard_def analysingState_def
        generatingState_def idleState_def readyState_def renderPrompt_def demoBlueprint_def)
qed

text \<open>
  C5, amended. The rule is kept by the rendered page, not by the handlers: in
  \<open>ANALYZING\<close> the analysis button is disabled; in \<open>GENERATING_CARD\<close> the only enabled button
  bound to a handler is the reset button; and in \<open>GENERATING_CARD\<close>, and in \<open>ANALYZING\<close>
  when no blueprint is stored, a click on any enabled button leaves the world as it was:
  nothing is sent.
\<close>

theorem controls_block_reentry:
  "(workflow st = ANALYZING \<longrightarrow> \<not> enabled st AnalyzeButton) \<and>
   (workflow st = GENERATING_CARD \<longrightarrow> enabled st c \<longrightarrow> c = ResetButton) \<and>
   (workflow st = GENERATING_CARD \<or> workflow st = ANALYZING \<and> blueprint st = None \<longrightarrow>
    enabled st c \<longrightarrow> fst (snd (click ai parse st c wd)) = wd)"
  by (cases c) (auto simp: formShown_def panelShown_def handleNext_def split: option.splits)

theorem controls_block_reentry_witness:
  "\<not> enabled analysingState AnalyzeButton \<and>
   enabled generatingState ResetButton \<and>
   fst (snd (click htmlService demoParse generatingState ResetButton newWorld)) = newWorld \<and>
   enabled staleState NextButton \<and>
   fst (snd (click htmlService demoParse staleState NextButton newWorld)) = newWorld"
proof -
  have a: "workflow analysingState = ANALYZING" "workflow generatingState = GENERATING_CARD"
    "workflow staleState = ANALYZING \<and> blueprint staleState = None"
    by (simp_all add: analysingState_def generatingState_def staleState_def idleState_def
        readyState_def)
  have b: "enabled generatingState ResetButton" "enabled staleState NextButton"
    by (simp_all add: generatingState_def staleState_def idleState_def readyState_def
        panelShown_def coverCard_def)
  from controls_block_reentry [of analysingState ResetButton htmlService demoParse newWorld]
    controls_block_reentry [of generatingState ResetButton htmlService demoParse newWorld]
    controls_block_reentry [of staleState NextButton htmlService demoParse newWorld]
    a b
  show ?thesis
    by blast
qed

section \<open>Properties of the export pipeline\<close>

text \<open>
  C8. The filter of the export pipeline returns false exactly for a \<^verbatim>\<open>LINK\<close> node that has a
  sheet whose rule list throws when it is read, and true for every other node: a node
  that is no link, a link without a sheet, a link whose rules can be read. It is this
  filter that the pipeline hands to the rasteriser.
\<close>

theorem filterNode_rejects_unreadable_links:
  "filterNode n = (\<not> (tagName n = js ''LINK'' \<and> (\<exists>e. sheet n = Some (Inl e)))) \<and>
   (iframeDoc ex \<longrightarrow> cardContainer ex = Some container \<longrightarrow>
      rasterise ex = toPng ex container filterNode)"
  by (auto simp: filterNode_def rasterise_def split: option.splits sum.splits)

theorem filterNode_rejects_unreadable_links_witness:
  "\<not> filterNode crossOriginLink \<and> filterNode sameOriginLink \<and> filterNode pendingLink \<and>
   filterNode divNode \<and> rasterise demoExport = demoToPng divNode filterNode"
proof -
  have "iframeDoc demoExport" "cardContainer demoExport = Some divNode"
    by (simp_all add: demoExport_def)
  with filterNode_rejects_unreadable_links [of crossOriginLink demoExport divNode]
    filterNode_rejects_unreadable_links [of sameOriginLink demoExport divNode]
    filterNode_rejects_unreadable_links [of pendingLink demoExport divNode]
    filterNode_rejects_unreadable_links [of divNode demoExport divNode]
  show ?thesis
    by (simp add: crossOriginLink_def sameOriginLink_def pendingLink_def divNode_def
        demoExport_def js_def)
qed

lemma length_replaceUnsafe: "length (replaceUnsafe s) = length s"
  by (induction s) simp_all

lemma nth_replaceUnsafe:
  "i < length s \<Longrightarrow> replaceUnsafe s ! i = (if s ! i \<in> set unsafeChars then 95 else s ! i)"
proof (induction s arbitrary: i)
  case Nil
  then show ?case by simp
next
  case (Cons c cs)
  then show ?case
    by (cases i) simp_all
qed

lemma replaceUnsafe_safe: "set (replaceUnsafe s) \<inter> set unsafeChars = {}"
proof (induction s)
  case Nil
  show ?case by simp
next
  case (Cons c cs)
  have "95 \<notin> set unsafeChars"
    by (simp add: unsafeChars_def)
  with Cons show ?case
    by auto
qed

text \<open>
  C9, amended. On a successful export of a card with the title \<open>T\<close> the one effect is the
  download of a file whose name is the fixed prefix of the source (three Chinese
  characters and a hyphen), then \<open>T\<close> sanitised, then \<^verbatim>\<open>.png\<close>. The sanitised title has the
  length of \<open>T\<close>; it holds an underscore wherever \<open>T\<close> holds one of the nine unsafe
  characters, and the character of \<open>T\<close> elsewhere; no unsafe character is left in it.
\<close>

theorem download_file_name:
  assumes "iframeMounted ex" and "currentCard st = Some cur" and "rasterise ex = Inr dataUrl"
  shows "snd (downloadAsImage ex st) =
           [Download (fileNamePrefix @ replaceUnsafe (GeneratedCard.title cur) @ js ''.png'')
              dataUrl] \<and>
         length (replaceUnsafe (GeneratedCard.title cur)) = length (GeneratedCard.title cur) \<and>
         (\<forall>i<length (GeneratedCard.title cur).
            replaceUnsafe (GeneratedCard.title cur) ! i =
              (if GeneratedCard.title cur ! i \<in> set unsafeChars then 95
               else GeneratedCard.title cur ! i)) \<and>
         set (replaceUnsafe (GeneratedCard.title cur)) \<inter> set unsafeChars = {}"
  using assms
  by (simp add: downloadAsImage_def fileName_def length_replaceUnsafe nth_replaceUnsafe
      replaceUnsafe_safe)

theorem download_file_name_witness:
  "snd (downloadAsImage demoExport questionState) =
     [Download ([30693, 35782, 21345, 45] @ js ''Q&A_ a_b_.png'')
        (js ''data:image/png;base64,AAAA'')]"
proof -
  have "iframeMounted demoExport" "currentCard questionState = Some questionCard"
    "rasterise demoExport = Inr (js ''data:image/png;base64,AAAA'')"
    by (simp_all add: demoExport_def questionState_def rasterise_def demoToPng_def)
  from download_file_name [OF this] show ?thesis
    by (simp add: questionCard_def fileNamePrefix_def js_def unsafeChars_def)
qed

text \<open>
  C9, as stated, fails: for the title \<^verbatim>\<open>Cover\<close>, which holds no unsafe character, the file is
  not named \<^verbatim>\<open>Cover.png\<close>; the name starts with the prefix.
\<close>

theorem download_file_name_not_bare:
  "snd (downloadAsImage demoExport shownState) =
     [Download ([30693, 35782, 21345, 45] @ js ''Cover.png'') (js ''data:image/png;base64,AAAA'')] \<and>
   snd (downloadAsImage demoExport shownState) \<noteq>
     [Download (js ''Cover.png'') (js ''data:image/png;base64,AAAA'')]"
  by (simp add: downloadAsImage_def demoExport_def shownState_def rasterise_def demoToPng_def
      coverCard_def fileName_def fileNamePrefix_def js_def unsafeChars_def)

end
